theory Spec2Isabelle
  imports Main "HOL-Library.Word"
begin

section \<open>Strings\<close>

text \<open>
  The TypeScript sources work on JavaScript strings: sequences of 16-bit UTF-16 code
  units, whose \<open>.length\<close> is the number of units. A string is a list of 16-bit words,
  and \<open>length\<close> stands for \<open>.length\<close>. An ASCII literal of the sources is written
  \<open>utf16 ''...''\<close>; a character outside ASCII is written as its code units (a surrogate
  pair for an emoji beyond U+FFFF).
\<close>

type_synonym jsstring = "16 word list"

definition u16 :: "char \<Rightarrow> 16 word" where
  "u16 c = of_char c"

definition utf16 :: "string \<Rightarrow> jsstring" where
  "utf16 s = map u16 s"

text \<open>
  The white space that \<open>String.prototype.trim\<close> strips: the WhiteSpace and
  LineTerminator code points of ECMAScript (tab, line feed, vertical tab, form feed,
  carriage return, space, no-break space, the Unicode space separators, line and
  paragraph separator, and the byte order mark). All of them are single code units.
\<close>

definition isWhiteSpace :: "16 word \<Rightarrow> bool" where
  "isWhiteSpace c =
     (c \<in> set [0x0009, 0x000A, 0x000B, 0x000C, 0x000D, 0x0020, 0x00A0, 0x1680,
                0x2000, 0x2001, 0x2002, 0x2003, 0x2004, 0x2005, 0x2006, 0x2007,
                0x2008, 0x2009, 0x200A, 0x2028, 0x2029, 0x202F, 0x205F, 0x3000,
                0xFEFF])"

text \<open>\<open>\d\<close> of a regular expression without the \<open>u\<close> flag: the ten ASCII digits.\<close>

definition isDigit :: "16 word \<Rightarrow> bool" where
  "isDigit c = (c \<in> set (utf16 ''0123456789''))"

text \<open>\<open>s.trim()\<close>\<close>

definition trim :: "jsstring \<Rightarrow> jsstring" where
  "trim s = rev (dropWhile isWhiteSpace (rev (dropWhile isWhiteSpace s)))"

text \<open>
  \<open>s.toLowerCase()\<close> and \<open>s.toUpperCase()\<close> follow the case tables of Unicode, which
  are not part of the sources. The two methods are given: every function below that
  uses one of them takes them as its first argument, and what is proved holds for any
  pair of them.
\<close>

record Runtime =
  toLowerCase :: "jsstring \<Rightarrow> jsstring"
  toUpperCase :: "jsstring \<Rightarrow> jsstring"

text \<open>\<open>s.startsWith(p)\<close>\<close>

fun startsWith :: "jsstring \<Rightarrow> jsstring \<Rightarrow> bool" where
  "startsWith s [] = True"
| "startsWith [] (p # ps) = False"
| "startsWith (c # cs) (p # ps) = (c = p \<and> startsWith cs ps)"

text \<open>\<open>s.includes(sub)\<close>: \<open>sub\<close> occurs in \<open>s\<close> as a contiguous run.\<close>

fun includes_str :: "jsstring \<Rightarrow> jsstring \<Rightarrow> bool" where
  "includes_str [] sub = (sub = [])"
| "includes_str (c # cs) sub = (startsWith (c # cs) sub \<or> includes_str cs sub)"

text \<open>
  \<open>s.split(sep)\<close> for a one-character separator. The result is never empty:
  \<open>"".split("\n")\<close> is \<open>[""]\<close>.
\<close>

fun splitOn :: "16 word \<Rightarrow> jsstring \<Rightarrow> jsstring list" where
  "splitOn sep [] = [[]]"
| "splitOn sep (c # cs) =
     (if c = sep then [] # splitOn sep cs
      else (case splitOn sep cs of
              w # ws \<Rightarrow> (c # w) # ws
            | [] \<Rightarrow> [[c]]))"

text \<open>\<open>parseInt(ds, 10)\<close> on a run of decimal digits (exact, as an unbounded integer).\<close>

definition digitValue :: "16 word \<Rightarrow> int" where
  "digitValue c = (case map_of (zip (utf16 ''0123456789'') [0, 1, 2, 3, 4, 5, 6, 7, 8, 9]) c of
                     Some d \<Rightarrow> d | None \<Rightarrow> 0)"

definition parseInt :: "jsstring \<Rightarrow> int" where
  "parseInt ds = foldl (\<lambda>n c. 10 * n + digitValue c) 0 ds"

section \<open>Mapping a new-file line to a position in the patch (orchestrator.ts)\<close>

subsection \<open>The hunk-header pattern\<close>

text \<open>
  \<open>line.match(/@@ -\d+(?:,\d+)? \+(\d+)(?:,\d+)? @@/)\<close>: the pattern is not anchored, so
  the match is searched from every start index, leftmost first, and the result is the
  text of group 1. Each \<open>\d+\<close> is followed in the pattern by a comma or a space, so a
  shorter run of digits than the longest one can never be continued and the greedy
  choice is the only one; an optional \<open>,\d+\<close> that is present must likewise be taken.
\<close>

text \<open>Consume a literal at the front of the input; the rest is returned.\<close>

fun expect :: "jsstring \<Rightarrow> jsstring \<Rightarrow> jsstring option" where
  "expect [] s = Some s"
| "expect (p # ps) [] = None"
| "expect (p # ps) (c # cs) = (if c = p then expect ps cs else None)"

text \<open>\<open>\d+\<close>: the longest non-empty run of digits, and the rest.\<close>

definition digits1 :: "jsstring \<Rightarrow> (jsstring \<times> jsstring) option" where
  "digits1 s =
     (let ds = takeWhile isDigit s in
      if ds = [] then None else Some (ds, dropWhile isDigit s))"

text \<open>\<open>(?:,\d+)?\<close>: the rest after the optional group.\<close>

definition optCommaDigits :: "jsstring \<Rightarrow> jsstring" where
  "optCommaDigits s =
     (case s of
        c # cs \<Rightarrow>
          (if c = (u16 CHR '','') then (case digits1 cs of Some (ds, r) \<Rightarrow> r | None \<Rightarrow> s) else s)
      | [] \<Rightarrow> s)"

text \<open>The pattern tried at the front of the input; the result is group 1.\<close>

definition matchHere :: "jsstring \<Rightarrow> jsstring option" where
  "matchHere s =
     (case expect (utf16 ''@@ -'') s of
        None \<Rightarrow> None
      | Some r1 \<Rightarrow>
          (case digits1 r1 of
             None \<Rightarrow> None
           | Some (oldStart, r2) \<Rightarrow>
               (case expect (utf16 '' +'') (optCommaDigits r2) of
                  None \<Rightarrow> None
                | Some r3 \<Rightarrow>
                    (case digits1 r3 of
                       None \<Rightarrow> None
                     | Some (newStart, r4) \<Rightarrow>
                         (case expect (utf16 '' @@'') (optCommaDigits r4) of
                            None \<Rightarrow> None
                          | Some r5 \<Rightarrow> Some newStart)))))"

fun hunkMatch :: "jsstring \<Rightarrow> jsstring option" where
  "hunkMatch [] = None"
| "hunkMatch (c # cs) =
     (case matchHere (c # cs) of
        Some g \<Rightarrow> Some g
      | None \<Rightarrow> hunkMatch cs)"

subsection \<open>mapLineToDiff\<close>

text \<open>
  One turn of the \<open>for\<close> loop of \<open>mapLineToDiff\<close>, at index \<open>i\<close> with the loop variables
  \<open>currentLine\<close> and \<open>inHunk\<close>: it returns from the function or goes on with new values
  of the two variables. \<open>targetLine\<close> is a JavaScript number that comes from the
  analysis source; it is an integer here.
\<close>

datatype scan = Return nat | Continue int bool

definition scanLine :: "int \<Rightarrow> nat \<Rightarrow> jsstring \<Rightarrow> int \<Rightarrow> bool \<Rightarrow> scan" where
  "scanLine targetLine i line currentLine inHunk =
     (case hunkMatch line of
        Some g \<Rightarrow> Continue (parseInt g - 1) True
      | None \<Rightarrow>
          if \<not> inHunk then Continue currentLine inHunk
          else if startsWith line (utf16 ''+'') then
            (if currentLine + 1 = targetLine then Return (i + 1)
             else Continue (currentLine + 1) inHunk)
          else if \<not> startsWith line (utf16 ''-'') then Continue (currentLine + 1) inHunk
          else Continue currentLine inHunk)"

text \<open>The loop over the lines that are left, from index \<open>i\<close> on.\<close>

fun mapLoop :: "int \<Rightarrow> jsstring list \<Rightarrow> nat \<Rightarrow> int \<Rightarrow> bool \<Rightarrow> nat option" where
  "mapLoop targetLine [] i currentLine inHunk = None"
| "mapLoop targetLine (line # rest) i currentLine inHunk =
     (case scanLine targetLine i line currentLine inHunk of
        Return p \<Rightarrow> Some p
      | Continue currentLine' inHunk' \<Rightarrow> mapLoop targetLine rest (i + 1) currentLine' inHunk')"

definition mapLineToDiff :: "int \<Rightarrow> jsstring list \<Rightarrow> nat option" where
  "mapLineToDiff targetLine patchLines = mapLoop targetLine patchLines 0 0 False"

subsection \<open>getOriginalLineContent\<close>

definition getOriginalLineContent :: "nat \<Rightarrow> jsstring list \<Rightarrow> jsstring option" where
  "getOriginalLineContent lineNumber patchLines =
     (if lineNumber < 1 \<or> lineNumber > length patchLines then None
      else
        (let line = patchLines ! (lineNumber - 1) in
         if startsWith line (utf16 ''+'') then Some (drop 1 line)
         else if \<not> startsWith line (utf16 ''-'') \<and> \<not> startsWith line (utf16 ''@'') then Some line
         else None))"

section \<open>Validating a suggestion (orchestrator.ts)\<close>

definition adviceIndicators :: "jsstring list" where
  "adviceIndicators =
     [utf16 ''consider'', utf16 ''should'', utf16 ''could'', utf16 ''would'', utf16 ''might'',
      utf16 ''ensure'', utf16 ''verify'', utf16 ''check'', utf16 ''pin to'', utf16 ''e.g.,'',
      utf16 ''for example'', utf16 ''you can'', utf16 ''it is'', utf16 ''this is'']"

text \<open>
  \<open>originalLine\<close> is \<open>string | null\<close>; \<open>!originalLine\<close> holds for \<open>null\<close> and for the
  empty string.
\<close>

definition isValidSuggestion :: "Runtime \<Rightarrow> jsstring \<Rightarrow> jsstring option \<Rightarrow> bool" where
  "isValidSuggestion rt suggestion originalLine =
     (if suggestion = [] \<or> length (trim suggestion) = 0 then False
      else if includes_str suggestion [0x0A] \<or> includes_str suggestion [0x0D] then False
      else
        (case originalLine of
           None \<Rightarrow> False
         | Some original \<Rightarrow>
             if original = [] then False
             else
               (let trimmedSuggestion = trim suggestion;
                    trimmedOriginal = trim original in
                if trimmedSuggestion = trimmedOriginal then False
                else
                  (let lowerSuggestion = toLowerCase rt trimmedSuggestion in
                   if list_ex (\<lambda>indicator. includes_str lowerSuggestion indicator) adviceIndicators
                   then False
                   else
                     (let originalKey = trim (hd (splitOn (u16 CHR '':'') trimmedOriginal));
                          suggestionKey = trim (hd (splitOn (u16 CHR '':'') trimmedSuggestion)) in
                      if includes_str trimmedOriginal (utf16 '':'') \<and> includes_str trimmedSuggestion (utf16 '':'')
                      then (if originalKey \<noteq> suggestionKey then False else True)
                      else True)))))"

section \<open>Building the review comments (orchestrator.ts)\<close>

text \<open>\<open>ReviewIssue\<close> and \<open>ReviewComment\<close> of the type declarations.\<close>

record ReviewIssue =
  i_line :: int
  i_severity :: jsstring
  i_category :: jsstring
  i_message :: jsstring
  i_suggestion :: "jsstring option"

datatype side = LEFT | RIGHT

record ReviewComment =
  c_path :: jsstring
  c_line :: nat
  c_start_line :: "nat option"
  c_body :: jsstring
  c_side :: "side option"
  c_start_side :: "side option"

definition getSeverityEmoji :: "jsstring \<Rightarrow> jsstring" where
  "getSeverityEmoji severity =
     (if severity = (utf16 ''critical'') then [0xD83D, 0xDD34]
      else if severity = (utf16 ''warning'') then [0xD83D, 0xDFE1]
      else if severity = (utf16 ''suggestion'') then [0xD83D, 0xDCA1]
      else if severity = (utf16 ''info'') then [0x2139, 0xFE0F]
      else [0xD83D, 0xDCDD])"

text \<open>\<open>parts.join(sep)\<close>\<close>

fun join_str :: "jsstring \<Rightarrow> jsstring list \<Rightarrow> jsstring" where
  "join_str sep [] = []"
| "join_str sep [x] = x"
| "join_str sep (x # y # ys) = x @ sep @ join_str sep (y # ys)"

text \<open>The fenced block that carries the literal replacement.\<close>

definition suggestionBlock :: "jsstring \<Rightarrow> jsstring" where
  "suggestionBlock s =
     [0x0A] @ (utf16 ''**Suggestion:**'') @ [0x0A] @ (utf16 ''```suggestion'') @ [0x0A] @ s
       @ [0x0A] @ (utf16 ''```'')"

text \<open>
  The value of \<open>issue.suggestion && this.isValidSuggestion(issue.suggestion, originalLine)\<close>
  as a truth value: an absent or empty suggestion is falsy.
\<close>

definition suggestionAccepted :: "Runtime \<Rightarrow> ReviewIssue \<Rightarrow> jsstring option \<Rightarrow> bool" where
  "suggestionAccepted rt issue originalLine =
     (case i_suggestion issue of
        None \<Rightarrow> False
      | Some s \<Rightarrow> s \<noteq> [] \<and> isValidSuggestion rt s originalLine)"

text \<open>The body of one comment: the four sections, the falsy ones dropped, joined by line breaks.\<close>

definition commentBody :: "Runtime \<Rightarrow> ReviewIssue \<Rightarrow> bool \<Rightarrow> jsstring" where
  "commentBody rt issue isValid =
     (let severityEmoji = getSeverityEmoji (i_severity issue);
          categoryLabel = (if i_category issue \<noteq> []
                           then (utf16 ''**'') @ toUpperCase rt (i_category issue) @ (utf16 ''**'') else [])
      in join_str [0x0A]
           (filter (\<lambda>section. section \<noteq> [])
              [severityEmoji @ (utf16 '' '') @ categoryLabel,
               [],
               i_message issue,
               (if isValid
                then suggestionBlock
                       (case i_suggestion issue of Some s \<Rightarrow> s | None \<Rightarrow> (utf16 ''undefined''))
                else [])]))"

text \<open>The loop over the issues; \<open>comments\<close> is the array that the loop pushes to.\<close>

fun commentsLoop ::
  "Runtime \<Rightarrow> jsstring \<Rightarrow> jsstring list \<Rightarrow> ReviewIssue list \<Rightarrow> ReviewComment list \<Rightarrow> ReviewComment list" where
  "commentsLoop rt filePath patchLines [] comments = comments"
| "commentsLoop rt filePath patchLines (issue # issues) comments =
     (case mapLineToDiff (i_line issue) patchLines of
        None \<Rightarrow> commentsLoop rt filePath patchLines issues comments
      | Some lineNumber \<Rightarrow>
          (let originalLine = getOriginalLineContent lineNumber patchLines;
               isValid = suggestionAccepted rt issue originalLine
           in commentsLoop rt filePath patchLines issues
                (comments @
                   [\<lparr>c_path = filePath, c_line = lineNumber, c_start_line = None,
                     c_body = commentBody rt issue isValid, c_side = Some RIGHT,
                     c_start_side = None\<rparr>])))"

definition createReviewComments ::
  "Runtime \<Rightarrow> jsstring \<Rightarrow> ReviewIssue list \<Rightarrow> jsstring \<Rightarrow> ReviewComment list" where
  "createReviewComments rt filePath issues patch =
     commentsLoop rt filePath (splitOn 0x0A patch) issues []"

section \<open>Retrying an operation (utils/retry.ts)\<close>

text \<open>Decimal rendering of a number in a template string.\<close>

fun showNat :: "nat \<Rightarrow> jsstring" where
  "showNat n =
     (if n < 10 then [(utf16 ''0123456789'') ! n]
      else showNat (n div 10) @ [(utf16 ''0123456789'') ! (n mod 10)])"

definition showInt :: "int \<Rightarrow> jsstring" where
  "showInt i = (if i < 0 then (utf16 ''-'') @ showNat (nat (- i)) else showNat (nat i))"

text \<open>
  What a rejected promise carries: an \<open>Error\<close> object (a plain one with its message, or
  a \<open>RetryExhaustedError\<close> with the error it wraps and the number of attempts), or any
  other value, kept as its \<open>String(...)\<close> rendering.
\<close>

datatype jsError = PlainError jsstring | RetryExhaustedError jsError int

fun errorMessage :: "jsError \<Rightarrow> jsstring" where
  "errorMessage (PlainError m) = m"
| "errorMessage (RetryExhaustedError originalError attempts) =
     (utf16 ''Failed after '') @ showInt attempts @ (utf16 '' attempts: '') @ errorMessage originalError"

datatype thrown = ErrorObject jsError | OtherValue jsstring

record RetryOptions =
  maxAttempts :: int
  backoffMs :: int
  maxBackoffMs :: int
  retryableErrors :: "jsstring list"

text \<open>\<open>Partial<RetryOptions>\<close>: every field may be left out.\<close>

record PartialRetryOptions =
  opt_maxAttempts :: "int option"
  opt_backoffMs :: "int option"
  opt_maxBackoffMs :: "int option"
  opt_retryableErrors :: "jsstring list option"

definition noOptions :: PartialRetryOptions where
  "noOptions = \<lparr>opt_maxAttempts = None, opt_backoffMs = None, opt_maxBackoffMs = None,
                 opt_retryableErrors = None\<rparr>"

text \<open>The defaults of \<open>withRetry\<close>, overridden by the fields that are given.\<close>

definition retryConfig :: "PartialRetryOptions \<Rightarrow> RetryOptions" where
  "retryConfig options =
     \<lparr>maxAttempts = (case opt_maxAttempts options of Some v \<Rightarrow> v | None \<Rightarrow> 3),
      backoffMs = (case opt_backoffMs options of Some v \<Rightarrow> v | None \<Rightarrow> 1000),
      maxBackoffMs = (case opt_maxBackoffMs options of Some v \<Rightarrow> v | None \<Rightarrow> 30000),
      retryableErrors =
        (case opt_retryableErrors options of
           Some v \<Rightarrow> v
         | None \<Rightarrow> [utf16 ''ETIMEDOUT'', utf16 ''ECONNRESET'', utf16 ''ECONNREFUSED'', utf16 ''429'', utf16 ''503'', utf16 ''502'',
                     (utf16 ''504'')])\<rparr>"

definition isRetryable :: "Runtime \<Rightarrow> thrown \<Rightarrow> jsstring list \<Rightarrow> bool" where
  "isRetryable rt error retryable =
     (case error of
        ErrorObject e \<Rightarrow>
          (let errorMessage = toLowerCase rt (errorMessage e) in
           list_ex (\<lambda>r. includes_str errorMessage (toLowerCase rt r)) retryable)
      | OtherValue v \<Rightarrow> False)"

text \<open>\<open>error instanceof Error ? error : new Error(String(error))\<close>\<close>

definition asError :: "thrown \<Rightarrow> jsError" where
  "asError error = (case error of ErrorObject e \<Rightarrow> e | OtherValue v \<Rightarrow> PlainError v)"

text \<open>
  The operation is a zero-argument asynchronous callable with effects. It is a function
  on the state of the world \<open>'s\<close> it acts on: it fails with what it throws or succeeds
  with a value, and leaves a new state. A call of \<open>withRetry\<close> gives its outcome and
  the state it leaves, with the number of times the operation was invoked and the
  delays that were slept, in order.
\<close>

record ('a, 's) retried =
  outcome :: "thrown + 'a"
  world :: 's
  calls :: nat
  sleeps :: "int list"

text \<open>
  The \<open>for\<close> loop of \<open>withRetry\<close> from \<open>attempt\<close> on. \<open>acc\<close> holds the state, the
  invocations and the sleeps so far (its outcome field is not read); \<open>lastError\<close> is the
  variable of that name.
\<close>

function retryLoop ::
  "Runtime \<Rightarrow> ('s \<Rightarrow> (thrown + 'a) \<times> 's) \<Rightarrow> RetryOptions \<Rightarrow> int \<Rightarrow> jsError option \<Rightarrow>
   ('a, 's) retried \<Rightarrow> ('a, 's) retried" where
  "retryLoop rt operation config attempt lastError acc =
     (if attempt \<le> maxAttempts config then
        (case operation (world acc) of
           (Inr v, w) \<Rightarrow> acc\<lparr>outcome := Inr v, world := w, calls := calls acc + 1\<rparr>
         | (Inl error, w) \<Rightarrow>
             (let lastError' = asError error in
              if attempt = maxAttempts config then
                acc\<lparr>outcome := Inl (ErrorObject (RetryExhaustedError lastError' attempt)),
                    world := w, calls := calls acc + 1\<rparr>
              else if \<not> isRetryable rt error (retryableErrors config) then
                acc\<lparr>outcome := Inl error, world := w, calls := calls acc + 1\<rparr>
              else
                (let delay = min (backoffMs config * 2 ^ nat (attempt - 1)) (maxBackoffMs config)
                 in retryLoop rt operation config (attempt + 1) (Some lastError')
                      (acc\<lparr>world := w, calls := calls acc + 1,
                           sleeps := sleeps acc @ [delay]\<rparr>))))
      else
        acc\<lparr>outcome :=
              Inl (case lastError of
                     Some e \<Rightarrow> ErrorObject e
                   | None \<Rightarrow> ErrorObject (PlainError (utf16 ''Unknown error in retry loop'')))\<rparr>)"
  by pat_completeness auto
termination
  by (relation "measure (\<lambda>(rt, operation, config, attempt, lastError, acc).
                   nat (maxAttempts config - attempt + 1))") auto

definition withRetry ::
  "Runtime \<Rightarrow> ('s \<Rightarrow> (thrown + 'a) \<times> 's) \<Rightarrow> PartialRetryOptions \<Rightarrow> 's \<Rightarrow> ('a, 's) retried" where
  "withRetry rt operation options w =
     retryLoop rt operation (retryConfig options) 1 None
       \<lparr>outcome = Inl (OtherValue []), world = w, calls = 0, sleeps = []\<rparr>"

section \<open>The GitHub client (github/client.ts)\<close>

datatype event = APPROVE | REQUEST_CHANGES | COMMENT

text \<open>One entry of the \<open>comments\<close> array of a request, as \<open>createReview\<close> and
  \<open>postReviewComments\<close> build it from a \<open>ReviewComment\<close>.\<close>

record CommentPayload =
  p_path :: jsstring
  p_line :: nat
  p_body :: jsstring
  p_side :: side
  p_start_line :: "nat option"
  p_start_side :: "side option"

definition commentPayload :: "ReviewComment \<Rightarrow> CommentPayload" where
  "commentPayload c =
     \<lparr>p_path = c_path c, p_line = c_line c, p_body = c_body c,
      p_side = (case c_side c of Some s \<Rightarrow> s | None \<Rightarrow> RIGHT),
      p_start_line = c_start_line c, p_start_side = c_start_side c\<rparr>"

text \<open>
  The requests that write to the pull request: \<open>pulls.createReview\<close> (commit, body,
  event, comments), \<open>pulls.createReviewComment\<close> (commit, comment) and
  \<open>issues.createComment\<close> (body).
\<close>

datatype request =
    PullsCreateReview jsstring jsstring event "CommentPayload list"
  | PullsCreateReviewComment jsstring CommentPayload
  | IssuesCreateComment jsstring

record PullRequestDetails =
  pr_title :: jsstring
  pr_body :: "jsstring option"

datatype fileStatus = added | modified | removed | renamed

record PullRequestFile =
  f_filename :: jsstring
  f_status :: fileStatus
  f_patch :: "jsstring option"

text \<open>
  The remote host as the client sees it. Reads are answers that are given: the head
  commit, the details of the pull request, the listing of its files. \<open>minimatch\<close> is
  the glob matcher of the library of that name. A write is answered by \<open>accept\<close>, which
  sees the requests sent before and the request itself; the state that the client acts
  on is the list of the requests it has sent, each attempt counted.
\<close>

record GitHubClient =
  getCommitSha :: "thrown + jsstring"
  getPRDetails :: "thrown + PullRequestDetails"
  listFiles :: "thrown + PullRequestFile list"
  minimatch :: "jsstring \<Rightarrow> jsstring \<Rightarrow> bool"
  accept :: "request list \<Rightarrow> request \<Rightarrow> thrown + unit"

definition send ::
  "GitHubClient \<Rightarrow> request \<Rightarrow> request list \<Rightarrow> (thrown + unit) \<times> request list" where
  "send github req sent = (accept github sent req, sent @ [req])"

definition getChangedFiles ::
  "GitHubClient \<Rightarrow> jsstring list \<Rightarrow> thrown + PullRequestFile list" where
  "getChangedFiles github excludePatterns =
     (case listFiles github of
        Inl e \<Rightarrow> Inl e
      | Inr files \<Rightarrow>
          Inr (filter (\<lambda>file. \<not> list_ex (\<lambda>pattern. minimatch github (f_filename file) pattern)
                                  excludePatterns) files))"

text \<open>\<open>body.length > 65000 ? body.substring(0, 65000) + '\n\n... (truncated)' : body\<close>\<close>

definition truncationMarker :: jsstring where
  "truncationMarker = [0x0A, 0x0A] @ (utf16 ''... (truncated)'')"

definition truncateBody :: "jsstring \<Rightarrow> jsstring" where
  "truncateBody body =
     (if length body > 65000 then take 65000 body @ truncationMarker else body)"

definition threeAttempts :: PartialRetryOptions where
  "threeAttempts = noOptions\<lparr>opt_maxAttempts := Some 3\<rparr>"

definition createReview ::
  "Runtime \<Rightarrow> GitHubClient \<Rightarrow> ReviewComment list \<Rightarrow> jsstring \<Rightarrow> event \<Rightarrow> request list \<Rightarrow>
   (thrown + unit) \<times> request list" where
  "createReview rt github comments body ev sent =
     (if length comments = 0 then (Inr (), sent)
      else
        (case getCommitSha github of
           Inl e \<Rightarrow> (Inl e, sent)
         | Inr commitId \<Rightarrow>
             (let truncatedBody = truncateBody body;
                  r = withRetry rt
                        (send github
                           (PullsCreateReview commitId truncatedBody ev
                              (map commentPayload comments)))
                        threeAttempts sent
              in (outcome r, world r))))"

text \<open>The loop of \<open>postReviewComments\<close>; what one comment throws is caught and logged.\<close>

fun postCommentsLoop ::
  "Runtime \<Rightarrow> GitHubClient \<Rightarrow> jsstring \<Rightarrow> ReviewComment list \<Rightarrow> request list \<Rightarrow> request list" where
  "postCommentsLoop rt github commitId [] sent = sent"
| "postCommentsLoop rt github commitId (comment # comments) sent =
     postCommentsLoop rt github commitId comments
       (world (withRetry rt
                 (send github (PullsCreateReviewComment commitId (commentPayload comment)))
                 threeAttempts sent))"

definition postReviewComments ::
  "Runtime \<Rightarrow> GitHubClient \<Rightarrow> ReviewComment list \<Rightarrow> request list \<Rightarrow> (thrown + unit) \<times> request list" where
  "postReviewComments rt github comments sent =
     (if length comments = 0 then (Inr (), sent)
      else
        (case getCommitSha github of
           Inl e \<Rightarrow> (Inl e, sent)
         | Inr commitId \<Rightarrow> (Inr (), postCommentsLoop rt github commitId comments sent)))"

definition postGeneralComment ::
  "Runtime \<Rightarrow> GitHubClient \<Rightarrow> jsstring \<Rightarrow> request list \<Rightarrow> (thrown + unit) \<times> request list" where
  "postGeneralComment rt github body sent =
     (let truncatedBody = truncateBody body;
          r = withRetry rt (send github (IssuesCreateComment truncatedBody)) threeAttempts sent
      in (outcome r, world r))"

section \<open>The review run (orchestrator.ts)\<close>

record Config =
  cfg_prompt :: jsstring
  cfg_maxFiles :: int
  cfg_excludePatterns :: "jsstring list"
  cfg_postAsReview :: bool

record ReviewResult =
  reviews :: "ReviewIssue list"
  r_summary :: jsstring

text \<open>What the loop of \<open>runReview\<close> keeps of one reviewed file.\<close>

record FileResult =
  fr_filePath :: jsstring
  fr_summary :: jsstring
  issueCount :: nat
  criticalCount :: nat
  warningCount :: nat
  suggestionCount :: nat

record ReviewSummary =
  totalFiles :: nat
  filesReviewed :: nat
  totalComments :: nat
  criticalIssues :: nat
  warnings :: nat
  suggestions :: nat
  summary :: jsstring

text \<open>
  The language-model client is not part of the sources; its two operations are
  functions of their arguments that answer or throw: \<open>reviewCode\<close> (file name, patch,
  prompt, title, description) and \<open>generateSummary\<close> (file path, summary and number of
  comments of each file; prompt).
\<close>

record LLMClient =
  reviewCode ::
    "jsstring \<Rightarrow> jsstring \<Rightarrow> jsstring \<Rightarrow> jsstring option \<Rightarrow> jsstring option \<Rightarrow> thrown + ReviewResult"
  generateSummary :: "(jsstring \<times> jsstring \<times> nat) list \<Rightarrow> jsstring \<Rightarrow> thrown + jsstring"

record FileReview =
  fv_comments :: "ReviewComment list"
  fv_summary :: jsstring
  fv_criticalCount :: nat
  fv_warningCount :: nat
  fv_suggestionCount :: nat

definition reviewFile ::
  "Runtime \<Rightarrow> Config \<Rightarrow> LLMClient \<Rightarrow> PullRequestFile \<Rightarrow> jsstring option \<Rightarrow> jsstring option \<Rightarrow>
   thrown + FileReview" where
  "reviewFile rt config llm file prTitle prDescription =
     (let patch = (case f_patch file of Some p \<Rightarrow> p | None \<Rightarrow> []) in
      case reviewCode llm (f_filename file) patch (cfg_prompt config) prTitle prDescription of
        Inl e \<Rightarrow> Inl e
      | Inr result \<Rightarrow>
          Inr \<lparr>fv_comments = createReviewComments rt (f_filename file) (reviews result) patch,
               fv_summary = r_summary result,
               fv_criticalCount =
                 length (filter (\<lambda>r. i_severity r = (utf16 ''critical'')) (reviews result)),
               fv_warningCount =
                 length (filter (\<lambda>r. i_severity r = (utf16 ''warning'')) (reviews result)),
               fv_suggestionCount =
                 length (filter (\<lambda>r. i_severity r = (utf16 ''suggestion'') \<or> i_severity r = (utf16 ''info''))
                           (reviews result))\<rparr>)"

text \<open>
  The loop over the files to review, with the two arrays it fills. A removed file and
  a file with no patch (absent or empty) are skipped; a file whose review throws is
  logged and left out.
\<close>

fun reviewLoop ::
  "Runtime \<Rightarrow> Config \<Rightarrow> LLMClient \<Rightarrow> PullRequestDetails \<Rightarrow> PullRequestFile list \<Rightarrow>
   ReviewComment list \<times> FileResult list \<Rightarrow> ReviewComment list \<times> FileResult list" where
  "reviewLoop rt config llm prDetails [] acc = acc"
| "reviewLoop rt config llm prDetails (file # files) (allComments, fileResults) =
     (if f_status file = removed \<or> f_patch file = None \<or> f_patch file = Some [] then
        reviewLoop rt config llm prDetails files (allComments, fileResults)
      else
        (case reviewFile rt config llm file (Some (pr_title prDetails))
                (case pr_body prDetails of
                   None \<Rightarrow> None
                 | Some b \<Rightarrow> if b = [] then None else Some b) of
           Inl e \<Rightarrow> reviewLoop rt config llm prDetails files (allComments, fileResults)
         | Inr result \<Rightarrow>
             reviewLoop rt config llm prDetails files
               (allComments @ fv_comments result,
                fileResults @
                  [\<lparr>fr_filePath = f_filename file, fr_summary = fv_summary result,
                    issueCount = length (fv_comments result),
                    criticalCount = fv_criticalCount result,
                    warningCount = fv_warningCount result,
                    suggestionCount = fv_suggestionCount result\<rparr>])))"

definition formatReviewBody ::
  "jsstring \<Rightarrow> FileResult list \<Rightarrow> nat \<Rightarrow> nat \<Rightarrow> nat \<Rightarrow> jsstring" where
  "formatReviewBody overall fileResults critical warns suggs =
     (let stats = filter (\<lambda>s. s \<noteq> [])
            [(if critical > 0
              then [0xD83D, 0xDD34] @ (utf16 '' '') @ showNat critical @ (utf16 '' critical'')
              else []),
             (if warns > 0
              then [0xD83D, 0xDFE1] @ (utf16 '' '') @ showNat warns @ (utf16 '' warnings'')
              else []),
             (if suggs > 0
              then [0xD83D, 0xDCA1] @ (utf16 '' '') @ showNat suggs @ (utf16 '' suggestions'')
              else [])]
      in (utf16 ''## Open Review'') @ [0x0A, 0x0A] @ overall @ [0x0A, 0x0A]
           @ (utf16 ''### Summary'') @ [0x0A]
           @ (if length stats > 0 then join_str (utf16 '' | '') stats
              else [0x2705] @ (utf16 '' No issues found''))
           @ [0x0A, 0x0A] @ (utf16 ''### Files Reviewed'') @ [0x0A]
           @ join_str [0x0A]
               (map (\<lambda>r. (utf16 ''- '') @ fr_filePath r
                          @ (if issueCount r > 0
                             then (utf16 '' ('') @ showNat (issueCount r) @ (utf16 '' comment'')
                                    @ (if issueCount r > 1 then (utf16 ''s'') else []) @ (utf16 '')'')
                             else []))
                    fileResults)
           @ [0x0A, 0x0A] @ (utf16 ''---'') @ [0x0A]
           @ (utf16 ''*This review was generated by AI. Please review the suggestions carefully before applying them.*''))"

text \<open>The body that is posted when the run has no comment.\<close>

definition approvalBody :: "jsstring \<Rightarrow> jsstring" where
  "approvalBody overall =
     (utf16 ''## '') @ [0x2705] @ (utf16 '' AI Code Review Complete'')
       @ [0x0A, 0x0A] @ overall @ [0x0A, 0x0A]
       @ (utf16 ''**No issues found!** Great job! '') @ [0xD83C, 0xDF89]"

text \<open>The step \<open>Post review\<close> of \<open>runReview\<close>.\<close>

definition postReview ::
  "Runtime \<Rightarrow> Config \<Rightarrow> GitHubClient \<Rightarrow> jsstring \<Rightarrow> ReviewComment list \<Rightarrow> FileResult list \<Rightarrow>
   request list \<Rightarrow> (thrown + unit) \<times> request list" where
  "postReview rt config github overall allComments fileResults sent =
     (if length allComments > 0 then
        (let reviewBody =
               formatReviewBody overall fileResults
                 (sum_list (map criticalCount fileResults))
                 (sum_list (map warningCount fileResults))
                 (sum_list (map suggestionCount fileResults))
         in if cfg_postAsReview config then createReview rt github allComments reviewBody COMMENT sent
            else
              (case postReviewComments rt github allComments sent of
                 (Inl e, sent') \<Rightarrow> (Inl e, sent')
               | (Inr u, sent') \<Rightarrow> postGeneralComment rt github reviewBody sent'))
      else
        (if cfg_postAsReview config
         then createReview rt github [] (approvalBody overall) APPROVE sent
         else postGeneralComment rt github (approvalBody overall) sent))"

text \<open>
  \<open>runReview\<close>: what it returns or throws, and the requests sent when it ends.
\<close>

definition runReview ::
  "Runtime \<Rightarrow> Config \<Rightarrow> GitHubClient \<Rightarrow> LLMClient \<Rightarrow> request list \<Rightarrow>
   (thrown + ReviewSummary) \<times> request list" where
  "runReview rt config github llm sent =
     (case getPRDetails github of
        Inl e \<Rightarrow> (Inl e, sent)
      | Inr prDetails \<Rightarrow>
          (case getChangedFiles github (cfg_excludePatterns config) of
             Inl e \<Rightarrow> (Inl e, sent)
           | Inr files \<Rightarrow>
               if length files = 0 then
                 (Inr \<lparr>totalFiles = 0, filesReviewed = 0, totalComments = 0, criticalIssues = 0,
                       warnings = 0, suggestions = 0, summary = (utf16 ''No files to review'')\<rparr>, sent)
               else
                 (let filesToReview =
                        (if cfg_maxFiles config > 0 then take (nat (cfg_maxFiles config)) files
                         else files);
                      (allComments, fileResults) =
                        reviewLoop rt config llm prDetails filesToReview ([], [])
                  in case generateSummary llm
                            (map (\<lambda>r. (fr_filePath r, fr_summary r, issueCount r)) fileResults)
                            (cfg_prompt config) of
                       Inl e \<Rightarrow> (Inl e, sent)
                     | Inr overallSummary \<Rightarrow>
                         (case postReview rt config github overallSummary allComments fileResults
                                 sent of
                            (Inl e, sent') \<Rightarrow> (Inl e, sent')
                          | (Inr u, sent') \<Rightarrow>
                              (Inr \<lparr>totalFiles = length files,
                                    filesReviewed = length fileResults,
                                    totalComments = length allComments,
                                    criticalIssues = sum_list (map criticalCount fileResults),
                                    warnings = sum_list (map warningCount fileResults),
                                    suggestions = sum_list (map suggestionCount fileResults),
                                    summary = overallSummary\<rparr>, sent')))))"

section \<open>Notions of the specification, and examples\<close>

text \<open>
  Trimming in the words of the specification: a text without the white space at its two
  ends, each end stripped one character at a time.
\<close>

fun dropLeadingSpace :: "jsstring \<Rightarrow> jsstring" where
  "dropLeadingSpace [] = []"
| "dropLeadingSpace (c # cs) = (if isWhiteSpace c then dropLeadingSpace cs else c # cs)"

definition trimmed :: "jsstring \<Rightarrow> jsstring" where
  "trimmed s = rev (dropLeadingSpace (rev (dropLeadingSpace s)))"

text \<open>
  The key of a line in the words of the specification: the substring before the first
  colon, trimmed.
\<close>

definition colon :: "16 word" where
  "colon = u16 CHR '':''"

definition keyOf :: "jsstring \<Rightarrow> jsstring" where
  "keyOf s = trimmed (takeWhile (\<lambda>c. c \<noteq> colon) s)"

text \<open>
  A runtime for the examples. Its two methods map the 26 ASCII letters and leave every
  other code unit as it is. The texts that the examples put in lower or upper case hold
  ASCII characters, a byte order mark and a no-break space; the last two have no case
  mapping, so on these texts that is what JavaScript does.
\<close>

definition asciiLower :: "16 word \<Rightarrow> 16 word" where
  "asciiLower c = (if 0x41 \<le> c \<and> c \<le> 0x5A then c + 0x20 else c)"

definition asciiUpper :: "16 word \<Rightarrow> 16 word" where
  "asciiUpper c = (if 0x61 \<le> c \<and> c \<le> 0x7A then c - 0x20 else c)"

definition asciiRuntime :: Runtime where
  "asciiRuntime = \<lparr>toLowerCase = map asciiLower, toUpperCase = map asciiUpper\<rparr>"


text \<open>
  An operation for the examples: it throws the same value at every invocation, and its
  state is the number of its invocations.
\<close>

definition failingWith :: "thrown \<Rightarrow> nat \<Rightarrow> (thrown + unit) \<times> nat" where
  "failingWith e n = (Inl e, Suc n)"


text \<open>
  A suggestion with white space round its key: a byte order mark and a space before
  \<open>key\<close>, a no-break space between the key and the colon, a space at the end.
\<close>

definition paddedSuggestion :: jsstring where
  "paddedSuggestion = [0xFEFF] @ utf16 '' key'' @ [0x00A0] @ utf16 '': 1 ''"


definition twoLinePatch :: jsstring where
  "twoLinePatch =
     utf16 ''@@ -1,1 +1,2 @@'' @ [0x0A] @ utf16 '' a = 0'' @ [0x0A] @ utf16 ''+b = 1''"




text \<open>
  A remote host, a language model and a configuration for the examples: one modified
  file, every write accepted, no issue found.
\<close>

definition acceptingClient :: GitHubClient where
  "acceptingClient =
     \<lparr>getCommitSha = Inr (utf16 ''abc123''),
      getPRDetails = Inr \<lparr>pr_title = (utf16 ''Add b''), pr_body = None\<rparr>,
      listFiles = Inr [\<lparr>f_filename = (utf16 ''main.py''), f_status = modified,
                        f_patch = Some twoLinePatch\<rparr>],
      minimatch = (\<lambda>name pattern. False),
      accept = (\<lambda>sent req. Inr ())\<rparr>"

definition quietLLM :: LLMClient where
  "quietLLM =
     \<lparr>reviewCode = (\<lambda>name patch prompt title description.
                      Inr \<lparr>reviews = [], r_summary = (utf16 ''Looks good'')\<rparr>),
      generateSummary = (\<lambda>results prompt. Inr (utf16 ''All clear''))\<rparr>"

definition reviewConfig :: "bool \<Rightarrow> Config" where
  "reviewConfig asReview =
     \<lparr>cfg_prompt = (utf16 ''Review this change''), cfg_maxFiles = 0, cfg_excludePatterns = [],
      cfg_postAsReview = asReview\<rparr>"

text \<open>A text of 70000 characters, and a comment with that body.\<close>

definition longText :: jsstring where
  "longText = replicate 70000 (u16 CHR ''x'')"

definition longComment :: ReviewComment where
  "longComment =
     \<lparr>c_path = (utf16 ''main.py''), c_line = 3, c_start_line = None,
      c_body = longText, c_side = Some RIGHT, c_start_side = None\<rparr>"

section \<open>Properties of the line mapping\<close>

lemma includes_single: "includes_str s [c] = (c \<in> set s)"
  by (induction s) auto

lemma splitOn_nonempty: "splitOn sep s \<noteq> []"
  by (induction s) (auto split: list.splits)

lemma hd_splitOn: "hd (splitOn sep s) = takeWhile (\<lambda>c. c \<noteq> sep) s"
  by (induction s) (auto split: list.splits simp: splitOn_nonempty)

lemma scanLine_Return:
  "scanLine t i line cur inH = Return p \<Longrightarrow>
     p = i + 1 \<and> startsWith line (utf16 ''+'') \<and> hunkMatch line = None \<and> inH \<and> cur + 1 = t"
  by (auto simp: scanLine_def split: option.splits if_splits)

text \<open>
  What the loop returns is the index, counted from 1, of a line still to be scanned;
  that line starts with \<open>+\<close> and holds no match of the header pattern.
\<close>

lemma mapLoop_Some:
  "mapLoop t ls i cur inH = Some p \<Longrightarrow>
     i < p \<and> p \<le> i + length ls \<and> startsWith (ls ! (p - 1 - i)) (utf16 ''+'')
       \<and> hunkMatch (ls ! (p - 1 - i)) = None"
proof (induction ls arbitrary: i cur inH)
  case Nil
  then show ?case by simp
next
  case (Cons line rest)
  show ?case
  proof (cases "scanLine t i line cur inH")
    case (Return q)
    with Cons.prems have "q = p" by simp
    with Return scanLine_Return [of t i line cur inH p] show ?thesis by simp
  next
    case (Continue cur' inH')
    with Cons.prems have "mapLoop t rest (i + 1) cur' inH' = Some p" by simp
    from Cons.IH [OF this]
    have a: "i + 1 < p" and b: "p \<le> i + 1 + length rest"
      and c: "startsWith (rest ! (p - 1 - (i + 1))) (utf16 ''+'')"
      and d: "hunkMatch (rest ! (p - 1 - (i + 1))) = None" by simp_all
    from a have "p - 1 - i = Suc (p - 1 - (i + 1))" by arith
    then have "(line # rest) ! (p - 1 - i) = rest ! (p - 1 - (i + 1))"
      by (simp only: nth_Cons_Suc)
    with a b c d show ?thesis by simp
  qed
qed

lemma plus_not_minus: "startsWith s (utf16 ''+'') \<Longrightarrow> \<not> startsWith s (utf16 ''-'')"
  by (cases s) (auto simp: utf16_def u16_def)

text \<open>
  C3, as the specification states it: in the patch
  \<open>"@@ -1,3 +1,5 @@\n line1\n+lineA\n+lineB\n line2"\<close> the new-file line 1 maps to position 3.
  It does not: the header starts the new file at line 1, so line 1 is the context line
  \<open>line1\<close>, which is counted and never returned.
\<close>

theorem mapLineToDiff_example_line1_counterexample:
  "mapLineToDiff 1
     (splitOn 0x0A
        ((utf16 ''@@ -1,3 +1,5 @@'') @ [0x0A] @ (utf16 '' line1'') @ [0x0A] @ (utf16 ''+lineA'') @ [0x0A]
           @ (utf16 ''+lineB'') @ [0x0A] @ (utf16 '' line2'')))
   \<noteq> Some 3"
  by code_simp

text \<open>
  C3, amended: in that patch the first added line is new-file line 2, and it is line 2
  that maps to position 3 (the header is position 1); new-file line 1 is unmapped.
\<close>

theorem mapLineToDiff_example:
  "mapLineToDiff 2
     (splitOn 0x0A
        ((utf16 ''@@ -1,3 +1,5 @@'') @ [0x0A] @ (utf16 '' line1'') @ [0x0A] @ (utf16 ''+lineA'') @ [0x0A]
           @ (utf16 ''+lineB'') @ [0x0A] @ (utf16 '' line2'')))
     = Some 3
   \<and> mapLineToDiff 1
     (splitOn 0x0A
        ((utf16 ''@@ -1,3 +1,5 @@'') @ [0x0A] @ (utf16 '' line1'') @ [0x0A] @ (utf16 ''+lineA'') @ [0x0A]
           @ (utf16 ''+lineB'') @ [0x0A] @ (utf16 '' line2'')))
     = None"
  by code_simp

text \<open>
  C6: whenever \<open>mapLineToDiff\<close> returns a position for a target line in a patch, the
  position is within the patch, and the patch line at that position (counted from 1)
  starts with \<open>+\<close> and does not start with \<open>-\<close>.
\<close>

theorem mapLineToDiff_added_line:
  "mapLineToDiff targetLine patchLines = Some p \<Longrightarrow>
     1 \<le> p \<and> p \<le> length patchLines
     \<and> startsWith (patchLines ! (p - 1)) (utf16 ''+'')
     \<and> \<not> startsWith (patchLines ! (p - 1)) (utf16 ''-'')"
  using mapLoop_Some [of targetLine patchLines 0 0 False p] plus_not_minus
  by (auto simp: mapLineToDiff_def)

text \<open>C6, at a patch with a removed, an added and a context line: target 1 maps to position 3.\<close>

theorem mapLineToDiff_added_line_witness:
  "mapLineToDiff 1 [utf16 ''@@ -1,2 +1,2 @@'', utf16 ''-old'', utf16 ''+new'', utf16 '' same''] = Some 3
   \<and> 1 \<le> (3::nat) \<and> (3::nat) \<le> length [utf16 ''@@ -1,2 +1,2 @@'', utf16 ''-old'', utf16 ''+new'', utf16 '' same'']
   \<and> startsWith ([utf16 ''@@ -1,2 +1,2 @@'', utf16 ''-old'', utf16 ''+new'', utf16 '' same''] ! (3 - 1)) (utf16 ''+'')
   \<and> \<not> startsWith ([utf16 ''@@ -1,2 +1,2 @@'', utf16 ''-old'', utf16 ''+new'', utf16 '' same''] ! (3 - 1)) (utf16 ''-'')"
proof -
  have h: "mapLineToDiff 1 [utf16 ''@@ -1,2 +1,2 @@'', utf16 ''-old'', utf16 ''+new'', utf16 '' same''] = Some 3"
    by code_simp
  from mapLineToDiff_added_line [OF h] h show ?thesis by simp
qed

section \<open>Properties of the validation\<close>

text \<open>
  C10: for every suggestion, validation against an original line that is the empty
  string is negative, as it is against an unknown original line; and the empty string
  is what \<open>getOriginalLineContent\<close> gives for an added line that is blank.
\<close>

theorem isValidSuggestion_empty_original:
  "isValidSuggestion rt suggestion (Some []) = False
   \<and> isValidSuggestion rt suggestion None = False
   \<and> getOriginalLineContent 2 [utf16 ''@@ -1 +1,2 @@'', utf16 ''+'', utf16 ''+x''] = Some []"
  by (simp add: isValidSuggestion_def getOriginalLineContent_def utf16_def u16_def)

text \<open>
  Trimming as the code does it is trimming in the words of the specification; it keeps
  a colon, and the key of a trimmed line is the key of the line.
\<close>

lemma dropLeadingSpace_dropWhile: "dropLeadingSpace s = dropWhile isWhiteSpace s"
  by (induction s) simp_all

lemma trimmed_trim: "trimmed s = trim s"
  by (simp add: trimmed_def trim_def dropLeadingSpace_dropWhile)

lemma colon_not_ws: "\<not> isWhiteSpace colon"
  by (simp add: isWhiteSpace_def colon_def u16_def)

lemma includes_colon: "includes_str s (utf16 '':'') = (colon \<in> set s)"
  using includes_single [of s colon] by (simp add: utf16_def colon_def)

lemma dropWhile_stops:
  "\<not> P y \<Longrightarrow> dropWhile P (xs @ y # ys) = dropWhile P xs @ y # ys"
  by (induction xs) auto

lemma trim_ws_prefix: "\<forall>x \<in> set w. isWhiteSpace x \<Longrightarrow> trim (w @ a) = trim a"
  by (simp add: trim_def)

lemma colon_in_trim: "colon \<in> set s \<Longrightarrow> colon \<in> set (trim s)"
proof -
  assume a: "colon \<in> set s"
  have *: "\<And>xs. colon \<in> set xs \<Longrightarrow> colon \<in> set (dropWhile isWhiteSpace xs)"
  proof -
    fix xs :: jsstring assume "colon \<in> set xs"
    then show "colon \<in> set (dropWhile isWhiteSpace xs)"
      by (induction xs) (auto simp: colon_not_ws)
  qed
  from a show ?thesis unfolding trim_def by (simp add: *)
qed

lemma key_of_trimmed:
  assumes "colon \<in> set s"
  shows "trim (takeWhile (\<lambda>c. c \<noteq> colon) (trim s)) = trim (takeWhile (\<lambda>c. c \<noteq> colon) s)"
proof -
  define w where "w = takeWhile isWhiteSpace s"
  define s' where "s' = dropWhile isWhiteSpace s"
  define a where "a = takeWhile (\<lambda>c. c \<noteq> colon) s'"
  define b where "b = tl (dropWhile (\<lambda>c. c \<noteq> colon) s')"
  have s: "s = w @ s'" by (simp add: w_def s'_def)
  have w: "\<forall>x \<in> set w. isWhiteSpace x" unfolding w_def by (auto dest: set_takeWhileD)
  then have wq: "\<forall>x \<in> set w. x \<noteq> colon" using colon_not_ws by auto
  with assms s have "colon \<in> set s'" by auto
  then have "dropWhile (\<lambda>c. c \<noteq> colon) s' \<noteq> []" by (simp add: dropWhile_eq_Nil_conv)
  then have "dropWhile (\<lambda>c. c \<noteq> colon) s' = colon # b"
    unfolding b_def using hd_dropWhile [of "\<lambda>c. c \<noteq> colon" s']
    by (cases "dropWhile (\<lambda>c. c \<noteq> colon) s'") auto
  then have s': "s' = a @ colon # b"
    unfolding a_def using takeWhile_dropWhile_id [of "\<lambda>c. c \<noteq> colon" s'] by simp
  have a: "\<forall>x \<in> set a. x \<noteq> colon" unfolding a_def by (auto dest: set_takeWhileD)
  have da: "dropWhile isWhiteSpace a = a"
  proof (cases a)
    case Nil then show ?thesis by simp
  next
    case (Cons x xs)
    have "s' \<noteq> [] \<Longrightarrow> \<not> isWhiteSpace (hd s')" unfolding s'_def by (rule hd_dropWhile)
    with s' Cons have "\<not> isWhiteSpace x" by simp
    with Cons show ?thesis by simp
  qed
  have "trim s = rev (dropWhile isWhiteSpace (rev s'))"
    by (simp add: trim_def s'_def)
  also have "rev s' = rev b @ colon # rev a" by (simp add: s')
  also have "dropWhile isWhiteSpace (rev b @ colon # rev a)
             = dropWhile isWhiteSpace (rev b) @ colon # rev a"
    by (rule dropWhile_stops) (rule colon_not_ws)
  finally have t: "trim s = a @ colon # rev (dropWhile isWhiteSpace (rev b))" by simp
  have l: "takeWhile (\<lambda>c. c \<noteq> colon) (trim s) = a"
    unfolding t using a by (simp add: takeWhile_tail)
  have "takeWhile (\<lambda>c. c \<noteq> colon) s = w @ a"
    unfolding s s' using wq a by (simp add: takeWhile_tail)
  then have r: "trim (takeWhile (\<lambda>c. c \<noteq> colon) s) = trim a"
    using trim_ws_prefix [OF w] by simp
  show ?thesis by (simp add: l r)
qed

lemma same_key_after_checks:
  assumes "suggestion \<noteq> []" and "trimmed suggestion \<noteq> []"
    and "0x0A \<notin> set suggestion" and "0x0D \<notin> set suggestion"
    and "trimmed suggestion \<noteq> trimmed original"
    and "\<not> list_ex (\<lambda>phrase. includes_str (toLowerCase rt (trimmed suggestion)) phrase)
            adviceIndicators"
    and "colon \<in> set suggestion" and "colon \<in> set original"
  shows "isValidSuggestion rt suggestion (Some original) = (keyOf suggestion = keyOf original)"
proof -
  from assms have o: "original \<noteq> []" by auto
  from assms have c: "colon \<in> set (trim suggestion)" "colon \<in> set (trim original)"
    by (simp_all add: colon_in_trim)
  from assms
  have k: "trim (takeWhile (\<lambda>c. c \<noteq> colon) (trim suggestion)) = keyOf suggestion"
     "trim (takeWhile (\<lambda>c. c \<noteq> colon) (trim original)) = keyOf original"
    by (simp_all add: key_of_trimmed keyOf_def trimmed_trim)
  from assms o c k show ?thesis
    by (auto simp add: isValidSuggestion_def includes_single includes_colon hd_splitOn
          Let_def trimmed_trim colon_def [symmetric])
qed

text \<open>
  C8: for every suggestion and known original line that pass the first five checks
  (the suggestion is not empty or blank, has no line break, differs from the original
  after trimming, and holds no advisory phrase when put in lower case) and that both
  hold a colon, the suggestion is valid exactly when the two keys (the text before the
  first colon, trimmed) are equal. \<open>timeout-minutes: 10\<close>, which lower-casing leaves as
  it is, is valid for \<open>timeout-minutes: 5\<close>; \<open>runs-on: ubuntu-latest\<close> is not.
\<close>

theorem isValidSuggestion_same_key:
  "(\<forall>suggestion original.
      suggestion \<noteq> [] \<and> trimmed suggestion \<noteq> []
      \<and> 0x0A \<notin> set suggestion \<and> 0x0D \<notin> set suggestion
      \<and> trimmed suggestion \<noteq> trimmed original
      \<and> \<not> list_ex (\<lambda>phrase. includes_str (toLowerCase rt (trimmed suggestion)) phrase)
            adviceIndicators
      \<and> colon \<in> set suggestion \<and> colon \<in> set original
      \<longrightarrow> isValidSuggestion rt suggestion (Some original)
            = (keyOf suggestion = keyOf original))
   \<and> (toLowerCase rt (utf16 ''timeout-minutes: 10'') = utf16 ''timeout-minutes: 10''
        \<longrightarrow> isValidSuggestion rt (utf16 ''timeout-minutes: 10'')
              (Some (utf16 ''timeout-minutes: 5'')))
   \<and> \<not> isValidSuggestion rt (utf16 ''runs-on: ubuntu-latest'')
          (Some (utf16 ''timeout-minutes: 5''))"
proof (intro conjI allI impI)
  fix suggestion original
  assume "suggestion \<noteq> [] \<and> trimmed suggestion \<noteq> []
      \<and> 0x0A \<notin> set suggestion \<and> 0x0D \<notin> set suggestion
      \<and> trimmed suggestion \<noteq> trimmed original
      \<and> \<not> list_ex (\<lambda>phrase. includes_str (toLowerCase rt (trimmed suggestion)) phrase)
            adviceIndicators
      \<and> colon \<in> set suggestion \<and> colon \<in> set original"
  then show "isValidSuggestion rt suggestion (Some original)
               = (keyOf suggestion = keyOf original)"
    using same_key_after_checks [of suggestion original rt] by blast
next
  assume l: "toLowerCase rt (utf16 ''timeout-minutes: 10'') = utf16 ''timeout-minutes: 10''"
  have t: "trimmed (utf16 ''timeout-minutes: 10'') = utf16 ''timeout-minutes: 10''"
    by code_simp
  have n: "\<not> list_ex (\<lambda>phrase. includes_str (utf16 ''timeout-minutes: 10'') phrase)
              adviceIndicators"
    by code_simp
  have a: "utf16 ''timeout-minutes: 10'' \<noteq> []"
    "trimmed (utf16 ''timeout-minutes: 10'') \<noteq> []"
    "0x0A \<notin> set (utf16 ''timeout-minutes: 10'')" "0x0D \<notin> set (utf16 ''timeout-minutes: 10'')"
    "trimmed (utf16 ''timeout-minutes: 10'') \<noteq> trimmed (utf16 ''timeout-minutes: 5'')"
    "colon \<in> set (utf16 ''timeout-minutes: 10'')" "colon \<in> set (utf16 ''timeout-minutes: 5'')"
    by code_simp+
  have k: "keyOf (utf16 ''timeout-minutes: 10'') = keyOf (utf16 ''timeout-minutes: 5'')"
    by code_simp
  from n have n': "\<not> list_ex (\<lambda>phrase. includes_str
                       (toLowerCase rt (trimmed (utf16 ''timeout-minutes: 10''))) phrase)
                     adviceIndicators"
    by (simp add: t l)
  from same_key_after_checks [OF a(1) a(2) a(3) a(4) a(5) n' a(6) a(7)] k
  show "isValidSuggestion rt (utf16 ''timeout-minutes: 10'')
          (Some (utf16 ''timeout-minutes: 5''))"
    by simp
next
  have a: "utf16 ''runs-on: ubuntu-latest'' \<noteq> []"
    "trimmed (utf16 ''runs-on: ubuntu-latest'') \<noteq> []"
    "0x0A \<notin> set (utf16 ''runs-on: ubuntu-latest'')"
    "0x0D \<notin> set (utf16 ''runs-on: ubuntu-latest'')"
    "trimmed (utf16 ''runs-on: ubuntu-latest'') \<noteq> trimmed (utf16 ''timeout-minutes: 5'')"
    "colon \<in> set (utf16 ''runs-on: ubuntu-latest'')" "colon \<in> set (utf16 ''timeout-minutes: 5'')"
    by code_simp+
  have k: "keyOf (utf16 ''runs-on: ubuntu-latest'') \<noteq> keyOf (utf16 ''timeout-minutes: 5'')"
    by code_simp
  show "\<not> isValidSuggestion rt (utf16 ''runs-on: ubuntu-latest'')
          (Some (utf16 ''timeout-minutes: 5''))"
  proof (cases "list_ex (\<lambda>phrase. includes_str
                  (toLowerCase rt (trimmed (utf16 ''runs-on: ubuntu-latest''))) phrase)
                adviceIndicators")
    case True
    then show ?thesis
      by (simp add: isValidSuggestion_def Let_def trimmed_trim)
  next
    case False
    from same_key_after_checks [OF a(1) a(2) a(3) a(4) a(5) False a(6) a(7)] k
    show ?thesis by simp
  qed
qed

text \<open>
  C8 at a suggestion with white space round its key: a byte order mark and a space
  before \<open>key\<close>, a no-break space between the key and the colon, a space at the end.
  The checks pass, both keys are \<open>key\<close>, and the suggestion is valid for \<open>key: 2\<close>.
  And \<open>timeout-minutes: 10\<close> is valid for \<open>timeout-minutes: 5\<close>.
\<close>

theorem isValidSuggestion_same_key_witness:
  "paddedSuggestion \<noteq> [] \<and> trimmed paddedSuggestion = utf16 ''key'' @ [0x00A0] @ utf16 '': 1''
   \<and> 0x0A \<notin> set paddedSuggestion \<and> 0x0D \<notin> set paddedSuggestion
   \<and> trimmed paddedSuggestion \<noteq> trimmed (utf16 ''key: 2'')
   \<and> \<not> list_ex (\<lambda>phrase. includes_str (toLowerCase asciiRuntime (trimmed paddedSuggestion))
                            phrase) adviceIndicators
   \<and> colon \<in> set paddedSuggestion \<and> colon \<in> set (utf16 ''key: 2'')
   \<and> keyOf paddedSuggestion = utf16 ''key''
   \<and> keyOf (utf16 ''key: 2'') = utf16 ''key''
   \<and> isValidSuggestion asciiRuntime paddedSuggestion (Some (utf16 ''key: 2''))
   \<and> toLowerCase asciiRuntime (utf16 ''timeout-minutes: 10'') = utf16 ''timeout-minutes: 10''
   \<and> isValidSuggestion asciiRuntime (utf16 ''timeout-minutes: 10'')
        (Some (utf16 ''timeout-minutes: 5''))"
proof -
  have a: "paddedSuggestion \<noteq> []" by code_simp
  have b: "trimmed paddedSuggestion = utf16 ''key'' @ [0x00A0] @ utf16 '': 1''" by code_simp
  then have b': "trimmed paddedSuggestion \<noteq> []" by (simp add: utf16_def)
  have c: "0x0A \<notin> set paddedSuggestion" "0x0D \<notin> set paddedSuggestion" by code_simp+
  have d: "trimmed paddedSuggestion \<noteq> trimmed (utf16 ''key: 2'')" by code_simp
  have e: "\<not> list_ex (\<lambda>phrase. includes_str (toLowerCase asciiRuntime (trimmed paddedSuggestion))
                            phrase) adviceIndicators" by code_simp
  have f: "colon \<in> set paddedSuggestion" "colon \<in> set (utf16 ''key: 2'')" by code_simp+
  have k1: "keyOf paddedSuggestion = utf16 ''key''" by code_simp
  have k2: "keyOf (utf16 ''key: 2'') = utf16 ''key''" by code_simp
  have l: "toLowerCase asciiRuntime (utf16 ''timeout-minutes: 10'') = utf16 ''timeout-minutes: 10''"
    by code_simp
  note inst = isValidSuggestion_same_key [of asciiRuntime]
  from inst a b' c d e f
  have "isValidSuggestion asciiRuntime paddedSuggestion (Some (utf16 ''key: 2''))
          = (keyOf paddedSuggestion = keyOf (utf16 ''key: 2''))"
    by blast
  with k1 k2 have v: "isValidSuggestion asciiRuntime paddedSuggestion (Some (utf16 ''key: 2''))"
    by simp
  from inst l have w: "isValidSuggestion asciiRuntime (utf16 ''timeout-minutes: 10'')
                        (Some (utf16 ''timeout-minutes: 5''))"
    by blast
  from a b c d e f k1 k2 v l w show ?thesis by blast
qed

section \<open>A header pattern inside a line\<close>

lemma matchHere_Nil: "matchHere [] = None"
  by (simp add: matchHere_def utf16_def)

lemma hunkMatch_embedded: "matchHere rest = Some g' \<Longrightarrow> \<exists>g. hunkMatch (pre @ rest) = Some g"
proof (induction pre)
  case Nil
  then show ?case by (cases rest) (auto simp: matchHere_Nil)
next
  case (Cons c pre)
  then show ?case by (auto split: option.splits)
qed


text \<open>
  C9: a line that holds a match of the header pattern at any offset (\<open>pre\<close> is what
  comes before it) is taken as a hunk header by every turn of the loop, whatever the
  line starts with: the counter is set from the number in the match, the loop is in a
  hunk afterwards, and no target line is ever mapped to the position of such a line.
\<close>

theorem embedded_header_resets_counter:
  assumes "matchHere rest = Some g'"
  shows "\<exists>g. hunkMatch (pre @ rest) = Some g
     \<and> scanLine targetLine i (pre @ rest) currentLine inHunk = Continue (parseInt g - 1) True
     \<and> (\<forall>t patchLines p. 1 \<le> p \<and> p \<le> length patchLines \<and> patchLines ! (p - 1) = pre @ rest
          \<longrightarrow> mapLineToDiff t patchLines \<noteq> Some p)"
proof -
  from hunkMatch_embedded [OF assms] obtain g where g: "hunkMatch (pre @ rest) = Some g" by blast
  then have "scanLine targetLine i (pre @ rest) currentLine inHunk = Continue (parseInt g - 1) True"
    by (simp add: scanLine_def)
  moreover have "\<forall>t patchLines p. 1 \<le> p \<and> p \<le> length patchLines \<and> patchLines ! (p - 1) = pre @ rest
          \<longrightarrow> mapLineToDiff t patchLines \<noteq> Some p"
    using mapLoop_Some g by (fastforce simp: mapLineToDiff_def)
  ultimately show ?thesis using g by blast
qed


text \<open>
  C9 at an added line that quotes a header: in the patch
  \<open>@@ -1,1 +1,3 @@\<close>, \<open>+a\<close>, \<open>+see @@ -5,2 +10,2 @@ here\<close>, \<open>+b\<close> the third line is never
  returned, and the line after it is new-file line 10.
\<close>

theorem embedded_header_resets_counter_witness:
  "matchHere (utf16 ''@@ -5,2 +10,2 @@ here'') = Some (utf16 ''10'')
   \<and> startsWith ((utf16 ''+see '') @ (utf16 ''@@ -5,2 +10,2 @@ here'')) (utf16 ''+'')
   \<and> hunkMatch ((utf16 ''+see '') @ (utf16 ''@@ -5,2 +10,2 @@ here'')) = Some (utf16 ''10'')
   \<and> scanLine 3 2 ((utf16 ''+see '') @ (utf16 ''@@ -5,2 +10,2 @@ here'')) 2 True = Continue 9 True
   \<and> (\<forall>t. mapLineToDiff t
             [utf16 ''@@ -1,1 +1,3 @@'', utf16 ''+a'', (utf16 ''+see '') @ (utf16 ''@@ -5,2 +10,2 @@ here''), utf16 ''+b'']
           \<noteq> Some 3)
   \<and> mapLineToDiff 10
        [utf16 ''@@ -1,1 +1,3 @@'', utf16 ''+a'', (utf16 ''+see '') @ (utf16 ''@@ -5,2 +10,2 @@ here''), utf16 ''+b'']
      = Some 4"
proof -
  have h: "matchHere (utf16 ''@@ -5,2 +10,2 @@ here'') = Some (utf16 ''10'')" by code_simp
  have s: "startsWith ((utf16 ''+see '') @ (utf16 ''@@ -5,2 +10,2 @@ here'')) (utf16 ''+'')" by code_simp
  have m: "hunkMatch ((utf16 ''+see '') @ (utf16 ''@@ -5,2 +10,2 @@ here'')) = Some (utf16 ''10'')" by code_simp
  have v: "parseInt (utf16 ''10'') - 1 = 9" by code_simp
  have e: "mapLineToDiff 10
        [utf16 ''@@ -1,1 +1,3 @@'', utf16 ''+a'', (utf16 ''+see '') @ (utf16 ''@@ -5,2 +10,2 @@ here''), utf16 ''+b'']
      = Some 4" by code_simp
  from embedded_header_resets_counter [OF h, of "(utf16 ''+see '')" 3 2 2 True]
  obtain g where g: "hunkMatch ((utf16 ''+see '') @ (utf16 ''@@ -5,2 +10,2 @@ here'')) = Some g"
    and sc: "scanLine 3 2 ((utf16 ''+see '') @ (utf16 ''@@ -5,2 +10,2 @@ here'')) 2 True
               = Continue (parseInt g - 1) True"
    and nv: "\<forall>t patchLines p. 1 \<le> p \<and> p \<le> length patchLines
               \<and> patchLines ! (p - 1) = (utf16 ''+see '') @ (utf16 ''@@ -5,2 +10,2 @@ here'')
               \<longrightarrow> mapLineToDiff t patchLines \<noteq> Some p"
    by blast
  from g m have "g = (utf16 ''10'')" by simp
  with sc v have sc': "scanLine 3 2 ((utf16 ''+see '') @ (utf16 ''@@ -5,2 +10,2 @@ here'')) 2 True = Continue 9 True"
    by simp
  have "\<forall>t. mapLineToDiff t
             [utf16 ''@@ -1,1 +1,3 @@'', utf16 ''+a'', (utf16 ''+see '') @ (utf16 ''@@ -5,2 +10,2 @@ here''), utf16 ''+b'']
           \<noteq> Some 3"
  proof
    fix t
    from nv [rule_format, of 3 "[utf16 ''@@ -1,1 +1,3 @@'', utf16 ''+a'', (utf16 ''+see '') @ (utf16 ''@@ -5,2 +10,2 @@ here''), utf16 ''+b'']" t]
    show "mapLineToDiff t
             [utf16 ''@@ -1,1 +1,3 @@'', utf16 ''+a'', (utf16 ''+see '') @ (utf16 ''@@ -5,2 +10,2 @@ here''), utf16 ''+b'']
           \<noteq> Some 3" by simp
  qed
  with h s m sc' e show ?thesis by blast
qed

section \<open>Properties of the retry loop\<close>

text \<open>The turns of the loop, one equation for each way through its body.\<close>

declare retryLoop.simps [simp del]

lemma retryLoop_done:
  "\<not> attempt \<le> maxAttempts config \<Longrightarrow>
   retryLoop rt operation config attempt lastError acc
     = acc\<lparr>outcome :=
             Inl (case lastError of
                    Some e \<Rightarrow> ErrorObject e
                  | None \<Rightarrow> ErrorObject (PlainError (utf16 ''Unknown error in retry loop'')))\<rparr>"
  by (subst retryLoop.simps) simp

lemma retryLoop_success:
  "attempt \<le> maxAttempts config \<Longrightarrow> operation (world acc) = (Inr v, w) \<Longrightarrow>
   retryLoop rt operation config attempt lastError acc
     = acc\<lparr>outcome := Inr v, world := w, calls := calls acc + 1\<rparr>"
  by (subst retryLoop.simps) simp

lemma retryLoop_last:
  "attempt = maxAttempts config \<Longrightarrow> operation (world acc) = (Inl error, w) \<Longrightarrow>
   retryLoop rt operation config attempt lastError acc
     = acc\<lparr>outcome := Inl (ErrorObject (RetryExhaustedError (asError error) attempt)),
           world := w, calls := calls acc + 1\<rparr>"
  by (subst retryLoop.simps) (simp add: Let_def)

lemma retryLoop_fatal:
  "attempt < maxAttempts config \<Longrightarrow> operation (world acc) = (Inl error, w) \<Longrightarrow>
   \<not> isRetryable rt error (retryableErrors config) \<Longrightarrow>
   retryLoop rt operation config attempt lastError acc
     = acc\<lparr>outcome := Inl error, world := w, calls := calls acc + 1\<rparr>"
  by (subst retryLoop.simps) (simp add: Let_def)

lemma retryLoop_retry:
  "attempt < maxAttempts config \<Longrightarrow> operation (world acc) = (Inl error, w) \<Longrightarrow>
   isRetryable rt error (retryableErrors config) \<Longrightarrow>
   retryLoop rt operation config attempt lastError acc
     = retryLoop rt operation config (attempt + 1) (Some (asError error))
         (acc\<lparr>world := w, calls := calls acc + 1,
              sleeps := sleeps acc
                @ [min (backoffMs config * 2 ^ nat (attempt - 1)) (maxBackoffMs config)]\<rparr>)"
  by (subst retryLoop.simps) (simp add: Let_def)








text \<open>
  C4, as stated for every options value: with \<open>maxAttempts = 1\<close> the first failure is
  the last attempt, and a failure that is not retryable is thrown wrapped in a
  \<open>RetryExhaustedError\<close>, not as it was.
\<close>

theorem withRetry_single_attempt_counterexample:
  "\<not> isRetryable asciiRuntime (ErrorObject (PlainError (utf16 ''Invalid request'')))
        (retryableErrors (retryConfig (noOptions\<lparr>opt_maxAttempts := Some 1\<rparr>)))
   \<and> outcome (withRetry asciiRuntime (failingWith (ErrorObject (PlainError (utf16 ''Invalid request''))))
                (noOptions\<lparr>opt_maxAttempts := Some 1\<rparr>) 0)
       = Inl (ErrorObject (RetryExhaustedError (PlainError (utf16 ''Invalid request'')) 1))
   \<and> outcome (withRetry asciiRuntime (failingWith (ErrorObject (PlainError (utf16 ''Invalid request''))))
                (noOptions\<lparr>opt_maxAttempts := Some 1\<rparr>) 0)
       \<noteq> Inl (ErrorObject (PlainError (utf16 ''Invalid request'')))"
  by code_simp

text \<open>
  C4, amended: when the first invocation fails with an error that is not retryable and
  \<open>maxAttempts\<close> is at least 2, the operation is invoked once, what it threw is thrown
  unchanged, and nothing is slept. With \<open>maxAttempts = 1\<close> the operation is invoked
  once and what it threw is wrapped: the \<open>Error\<close> object itself, or a new \<open>Error\<close>
  whose message is the rendering of the value thrown.
\<close>

theorem withRetry_non_retryable:
  "operation w = (Inl e, w') \<Longrightarrow>
   \<not> isRetryable rt e (retryableErrors (retryConfig options)) \<Longrightarrow>
   (2 \<le> maxAttempts (retryConfig options) \<longrightarrow>
      outcome (withRetry rt operation options w) = Inl e
      \<and> calls (withRetry rt operation options w) = 1
      \<and> world (withRetry rt operation options w) = w'
      \<and> sleeps (withRetry rt operation options w) = [])
   \<and> (maxAttempts (retryConfig options) = 1 \<longrightarrow>
      outcome (withRetry rt operation options w)
        = Inl (ErrorObject
                 (RetryExhaustedError
                    (case e of ErrorObject x \<Rightarrow> x | OtherValue v \<Rightarrow> PlainError v) 1))
      \<and> calls (withRetry rt operation options w) = 1)"
  by (simp add: withRetry_def retryLoop_fatal retryLoop_last asError_def)

text \<open>C4 at three attempts and an operation that throws \<open>Invalid request\<close>.\<close>

theorem withRetry_non_retryable_witness:
  "failingWith (ErrorObject (PlainError (utf16 ''Invalid request''))) 0 = (Inl (ErrorObject (PlainError (utf16 ''Invalid request''))), 1)
   \<and> \<not> isRetryable asciiRuntime (ErrorObject (PlainError (utf16 ''Invalid request''))) (retryableErrors (retryConfig threeAttempts))
   \<and> 2 \<le> maxAttempts (retryConfig threeAttempts)
   \<and> outcome (withRetry asciiRuntime (failingWith (ErrorObject (PlainError (utf16 ''Invalid request'')))) threeAttempts 0)
       = Inl (ErrorObject (PlainError (utf16 ''Invalid request'')))
   \<and> calls (withRetry asciiRuntime (failingWith (ErrorObject (PlainError (utf16 ''Invalid request'')))) threeAttempts 0) = 1"
proof -
  have a: "failingWith (ErrorObject (PlainError (utf16 ''Invalid request''))) 0 = (Inl (ErrorObject (PlainError (utf16 ''Invalid request''))), 1)"
    by (simp add: failingWith_def)
  have b: "\<not> isRetryable asciiRuntime (ErrorObject (PlainError (utf16 ''Invalid request'')))
               (retryableErrors (retryConfig threeAttempts))" by code_simp
  have c: "2 \<le> maxAttempts (retryConfig threeAttempts)"
    by (simp add: retryConfig_def threeAttempts_def noOptions_def)
  from withRetry_non_retryable
         [where rt = asciiRuntime and operation = "failingWith (ErrorObject (PlainError (utf16 ''Invalid request'')))"
            and w = 0 and options = threeAttempts, OF a b] a b c
  show ?thesis by simp
qed

section \<open>Properties of the comments\<close>






lemma startsWith_set: "startsWith s p \<Longrightarrow> set p \<subseteq> set s"
  by (induction s p rule: startsWith.induct) auto

lemma includes_set: "includes_str s sub \<Longrightarrow> set sub \<subseteq> set s"
proof (induction s)
  case Nil
  then show ?case by simp
next
  case (Cons a s)
  from Cons.prems have "startsWith (a # s) sub \<or> includes_str s sub" by simp
  then show ?case
  proof
    assume "startsWith (a # s) sub"
    then show ?thesis by (rule startsWith_set)
  next
    assume "includes_str s sub"
    from Cons.IH [OF this] show ?thesis by auto
  qed
qed













section \<open>Properties of the delivery\<close>

text \<open>
  What a call of \<open>withRetry\<close> around one request adds to the requests sent: the request,
  once for each attempt, at least once and at most three times; once when it is accepted.
\<close>

lemma retryLoop_send_world:
  "\<exists>k. world (retryLoop rt (send github req) config attempt lastError acc)
          = world acc @ replicate k req
       \<and> (attempt \<le> maxAttempts config \<longrightarrow> 0 < k)
       \<and> k \<le> nat (maxAttempts config - attempt + 1)"
proof (induction "nat (maxAttempts config - attempt + 1)" arbitrary: attempt lastError acc)
  case 0
  then have "\<not> attempt \<le> maxAttempts config" by simp
  then show ?case by (simp add: retryLoop_done)
next
  case (Suc n)
  then have le: "attempt \<le> maxAttempts config" by simp
  obtain r where op: "send github req (world acc) = (r, world acc @ [req])"
    by (simp add: send_def)
  have one: "world acc @ [req] = world acc @ replicate 1 req" by simp
  show ?case
  proof (cases r)
    case (Inr v)
    with le op have "world (retryLoop rt (send github req) config attempt lastError acc)
                       = world acc @ replicate 1 req"
      by (simp add: retryLoop_success)
    with Suc.hyps(2) show ?thesis by (intro exI [of _ 1]) simp
  next
    case (Inl error)
    show ?thesis
    proof (cases "attempt = maxAttempts config \<or> \<not> isRetryable rt error (retryableErrors config)")
      case True
      with le op Inl have "world (retryLoop rt (send github req) config attempt lastError acc)
                       = world acc @ replicate 1 req"
        by (cases "attempt = maxAttempts config") (auto simp: retryLoop_last retryLoop_fatal)
      with Suc.hyps(2) show ?thesis by (intro exI [of _ 1]) simp
    next
      case False
      with le have lt: "attempt < maxAttempts config" and re: "isRetryable rt error (retryableErrors config)"
        by simp_all
      let ?acc = "acc\<lparr>world := world acc @ [req], calls := calls acc + 1,
              sleeps := sleeps acc
                @ [min (backoffMs config * 2 ^ nat (attempt - 1)) (maxBackoffMs config)]\<rparr>"
      from lt op Inl re
      have unfold: "retryLoop rt (send github req) config attempt lastError acc
                = retryLoop rt (send github req) config (attempt + 1) (Some (asError error)) ?acc"
        by (simp add: retryLoop_retry)
      from Suc.hyps(2) have n: "n = nat (maxAttempts config - (attempt + 1) + 1)" by simp
      from Suc.hyps(1) [OF n, where lastError = "Some (asError error)" and acc = ?acc]
      obtain k where k: "world (retryLoop rt (send github req) config (attempt + 1)
                                  (Some (asError error)) ?acc)
                           = world ?acc @ replicate k req"
        and kb: "k \<le> nat (maxAttempts config - (attempt + 1) + 1)" by blast
      have "world ?acc @ replicate k req = world acc @ replicate (Suc k) req"
        by (simp add: replicate_append_same)
      with k kb lt unfold show ?thesis by (intro exI [of _ "Suc k"]) simp
    qed
  qed
qed

lemma withRetry_send_world:
  "\<exists>k. world (withRetry rt (send github req) threeAttempts sent) = sent @ replicate k req
       \<and> 1 \<le> k \<and> k \<le> 3"
proof -
  have m: "maxAttempts (retryConfig threeAttempts) = 3"
    by (simp add: retryConfig_def threeAttempts_def noOptions_def)
  from retryLoop_send_world
         [where rt = rt and github = github and req = req and config = "retryConfig threeAttempts"
            and attempt = 1 and lastError = None
            and acc = "\<lparr>outcome = Inl (OtherValue []), world = sent, calls = 0, sleeps = []\<rparr>"]
  show ?thesis by (auto simp: withRetry_def m)
qed

lemma withRetry_send_accepted:
  "accept github sent req = Inr u \<Longrightarrow>
   world (withRetry rt (send github req) threeAttempts sent) = sent @ [req]
   \<and> outcome (withRetry rt (send github req) threeAttempts sent) = Inr u"
proof -
  assume a: "accept github sent req = Inr u"
  have m: "maxAttempts (retryConfig threeAttempts) = 3"
    by (simp add: retryConfig_def threeAttempts_def noOptions_def)
  show ?thesis
    using a
    by (simp add: withRetry_def m retryLoop_success [where w = "sent @ [req]" and v = u]
          send_def)
qed

lemma truncateBody_length: "length (truncateBody body) \<le> 65000 + length truncationMarker"
  by (simp add: truncateBody_def)

lemma postCommentsLoop_requests:
  "r \<in> set (postCommentsLoop rt github commitId comments sent) \<Longrightarrow>
   r \<in> set sent \<or> (\<exists>c \<in> set comments. r = PullsCreateReviewComment commitId (commentPayload c))"
proof (induction comments arbitrary: sent)
  case Nil
  then show ?case by simp
next
  case (Cons c comments)
  obtain k where k: "world (withRetry rt
                              (send github (PullsCreateReviewComment commitId (commentPayload c)))
                              threeAttempts sent)
                       = sent @ replicate k (PullsCreateReviewComment commitId (commentPayload c))"
    using withRetry_send_world by blast
  from Cons.prems have "r \<in> set (postCommentsLoop rt github commitId comments
       (sent @ replicate k (PullsCreateReviewComment commitId (commentPayload c))))"
    by (simp add: k)
  from Cons.IH [OF this] show ?case by auto
qed

lemma length_longText: "length longText = 70000"
  by (simp add: longText_def)

lemma createReview_requests:
  "r \<in> set (snd (createReview rt github comments body ev sent)) \<Longrightarrow>
   r \<in> set sent
   \<or> (\<exists>commitId. r = PullsCreateReview commitId (truncateBody body) ev
                        (map commentPayload comments))"
proof (cases "length comments = 0")
  case True
  assume "r \<in> set (snd (createReview rt github comments body ev sent))"
  with True show ?thesis by (simp add: createReview_def)
next
  case False
  assume r: "r \<in> set (snd (createReview rt github comments body ev sent))"
  show ?thesis
  proof (cases "getCommitSha github")
    case (Inl e)
    with False r show ?thesis by (simp add: createReview_def)
  next
    case (Inr commitId)
    let ?req = "PullsCreateReview commitId (truncateBody body) ev (map commentPayload comments)"
    obtain k where "world (withRetry rt (send github ?req) threeAttempts sent)
                      = sent @ replicate k ?req"
      using withRetry_send_world by blast
    with False Inr r have "r \<in> set (sent @ replicate k ?req)"
      by (simp add: createReview_def Let_def)
    then show ?thesis by auto
  qed
qed

lemma postGeneralComment_requests:
  "\<exists>k. snd (postGeneralComment rt github body sent)
          = sent @ replicate k (IssuesCreateComment (truncateBody body))
       \<and> 1 \<le> k \<and> k \<le> 3"
  using withRetry_send_world
          [where rt = rt and github = github and req = "IssuesCreateComment (truncateBody body)"
             and sent = sent]
  by (simp add: postGeneralComment_def Let_def)

lemma postReviewComments_requests:
  "r \<in> set (snd (postReviewComments rt github comments sent)) \<Longrightarrow>
   r \<in> set sent
   \<or> (\<exists>commitId. \<exists>c \<in> set comments. r = PullsCreateReviewComment commitId (commentPayload c))"
  using postCommentsLoop_requests
          [where r = r and rt = rt and github = github and comments = comments and sent = sent]
  by (auto simp: postReviewComments_def split: if_splits sum.splits)

text \<open>
  C2, as stated for every body: the body of a comment is not cut. A comment whose body
  has 70000 characters is sent with that body, by \<open>postReviewComments\<close> and inside the
  request of \<open>createReview\<close>, and 70000 is more than 65000 plus the length of the marker.
\<close>

theorem comment_body_not_truncated_counterexample:
  "snd (postReviewComments asciiRuntime acceptingClient [longComment] [])
     = [PullsCreateReviewComment (utf16 ''abc123'') (commentPayload longComment)]
   \<and> snd (createReview asciiRuntime acceptingClient [longComment] (utf16 ''Summary'') COMMENT [])
     = [PullsCreateReview (utf16 ''abc123'') (utf16 ''Summary'') COMMENT
          [commentPayload longComment]]
   \<and> length (p_body (commentPayload longComment)) = 70000
   \<and> \<not> 70000 \<le> 65000 + length truncationMarker"
proof -
  have a: "\<And>req. accept acceptingClient [] req = Inr ()" by (simp add: acceptingClient_def)
  have s: "getCommitSha acceptingClient = Inr (utf16 ''abc123'')"
    by (simp add: acceptingClient_def)
  have t: "truncateBody (utf16 ''Summary'') = utf16 ''Summary''"
    by (simp add: truncateBody_def utf16_def)
  have m: "length truncationMarker = 17" by (simp add: truncationMarker_def utf16_def)
  show ?thesis
    using withRetry_send_accepted [OF a, where rt = asciiRuntime]
    by (simp add: postReviewComments_def createReview_def s t m Let_def longComment_def
          commentPayload_def length_longText)
qed

text \<open>
  C2, amended: the body of a review and the body of a general comment are sent cut.
  Every request that \<open>createReview\<close> or \<open>postGeneralComment\<close> sends carries
  \<open>truncateBody body\<close>, which is never longer than 65000 characters plus the marker and
  is the first 65000 characters followed by the marker when the body is longer than
  65000; \<open>postGeneralComment\<close> sends its request at least once. The body of each
  comment is sent as it is.
\<close>

theorem review_and_general_body_truncated:
  "(\<forall>r \<in> set (snd (createReview rt github comments body ev sent)).
      r \<in> set sent
      \<or> (\<exists>commitId. r = PullsCreateReview commitId (truncateBody body) ev
                           (map commentPayload comments)))
   \<and> (\<forall>r \<in> set (snd (postGeneralComment rt github body sent)).
        r \<in> set sent \<or> r = IssuesCreateComment (truncateBody body))
   \<and> IssuesCreateComment (truncateBody body) \<in> set (snd (postGeneralComment rt github body sent))
   \<and> length (truncateBody body) \<le> 65000 + length truncationMarker
   \<and> (65000 < length body \<longrightarrow> truncateBody body = take 65000 body @ truncationMarker)
   \<and> (\<forall>r \<in> set (snd (postReviewComments rt github comments sent)).
        r \<in> set sent
        \<or> (\<exists>commitId. \<exists>c \<in> set comments.
              r = PullsCreateReviewComment commitId (commentPayload c)))
   \<and> (\<forall>c \<in> set comments. p_body (commentPayload c) = c_body c)"
proof -
  obtain k where k: "snd (postGeneralComment rt github body sent)
          = sent @ replicate k (IssuesCreateComment (truncateBody body))" and k1: "1 \<le> k"
    using postGeneralComment_requests by blast
  have g1: "\<forall>r \<in> set (snd (postGeneralComment rt github body sent)).
        r \<in> set sent \<or> r = IssuesCreateComment (truncateBody body)"
    unfolding k by auto
  have g2: "IssuesCreateComment (truncateBody body)
              \<in> set (snd (postGeneralComment rt github body sent))"
    unfolding k using k1 by auto
  have t: "65000 < length body \<longrightarrow> truncateBody body = take 65000 body @ truncationMarker"
    by (simp add: truncateBody_def)
  have p: "\<forall>c \<in> set comments. p_body (commentPayload c) = c_body c"
    by (simp add: commentPayload_def)
  from createReview_requests postReviewComments_requests g1 g2 truncateBody_length t p
  show ?thesis by blast
qed

text \<open>C2 at a body of 70000 characters: the text sent has 65017 characters.\<close>

theorem review_and_general_body_truncated_witness:
  "65000 < length longText
   \<and> set (snd (postGeneralComment asciiRuntime acceptingClient longText []))
       = {IssuesCreateComment (take 65000 longText @ truncationMarker)}
   \<and> length (take 65000 longText @ truncationMarker) = 65017
   \<and> longComment \<in> set [longComment]
   \<and> p_body (commentPayload longComment) = longText"
proof -
  have h: "65000 < length longText" by (simp add: length_longText)
  have l: "length (take 65000 longText @ truncationMarker) = 65017"
    by (simp add: truncationMarker_def length_longText utf16_def)
  have b: "c_body longComment = longText" by (simp add: longComment_def)
  have m: "longComment \<in> set [longComment]" by simp
  note inst = review_and_general_body_truncated
                [where rt = asciiRuntime and github = acceptingClient
                   and comments = "[longComment]" and body = longText and ev = COMMENT
                   and sent = "[]"]
  from inst h have e: "truncateBody longText = take 65000 longText @ truncationMarker"
    by blast
  from inst [THEN conjunct2, THEN conjunct1]
  have p2: "\<forall>r \<in> set (snd (postGeneralComment asciiRuntime acceptingClient longText [])).
              r = IssuesCreateComment (truncateBody longText)"
    by simp
  from inst [THEN conjunct2, THEN conjunct2, THEN conjunct1]
  have p3: "IssuesCreateComment (truncateBody longText)
              \<in> set (snd (postGeneralComment asciiRuntime acceptingClient longText []))" .
  from p2 p3 have p: "set (snd (postGeneralComment asciiRuntime acceptingClient longText []))
                        = {IssuesCreateComment (truncateBody longText)}"
    by blast
  from inst m have "p_body (commentPayload longComment) = c_body longComment" by blast
  then have p4: "p_body (commentPayload longComment) = longText" by (simp only: b)
  from p p4 h l m show ?thesis unfolding e by blast
qed

section \<open>The approval of a run with no comment\<close>

text \<open>
  The approval body has 66 code units besides the summary, as the template string of
  \<open>runReview\<close> has.
\<close>

lemma approvalBody_length: "length (approvalBody overall) = length overall + 66"
  by (simp add: approvalBody_def utf16_def)

text \<open>
  A run with at least one changed file in which no file produces a comment and whose
  overall summary is generated. With \<open>postAsReview\<close> off, the approval body, cut as
  every general comment is, is sent as a general comment and nothing else is sent (one
  request for each attempt, at most three); a summary that the run returns has zero
  comments, and the run returns it when the host accepts the comment.
\<close>

lemma runReview_approval_as_general_comment:
  assumes "getPRDetails github = Inr prDetails"
    and "getChangedFiles github (cfg_excludePatterns config) = Inr files"
    and "files \<noteq> []"
    and "reviewLoop rt config llm prDetails
           (if cfg_maxFiles config > 0 then take (nat (cfg_maxFiles config)) files else files)
           ([], [])
         = ([], fileResults)"
    and "generateSummary llm
           (map (\<lambda>r. (fr_filePath r, fr_summary r, issueCount r)) fileResults)
           (cfg_prompt config) = Inr overall"
    and "\<not> cfg_postAsReview config"
  shows "(\<exists>k. 1 \<le> k \<and> k \<le> 3
            \<and> snd (runReview rt config github llm sent)
                = sent @ replicate k
                           (IssuesCreateComment (truncateBody (approvalBody overall))))
         \<and> (\<forall>s. fst (runReview rt config github llm sent) = Inr s
               \<longrightarrow> s = \<lparr>totalFiles = length files, filesReviewed = length fileResults,
                         totalComments = 0,
                         criticalIssues = sum_list (map criticalCount fileResults),
                         warnings = sum_list (map warningCount fileResults),
                         suggestions = sum_list (map suggestionCount fileResults),
                         summary = overall\<rparr>)
         \<and> (accept github sent (IssuesCreateComment (truncateBody (approvalBody overall)))
              = Inr ()
             \<longrightarrow> (\<exists>s. runReview rt config github llm sent
                        = (Inr s, sent @ [IssuesCreateComment
                                           (truncateBody (approvalBody overall))])))"
proof -
  let ?req = "IssuesCreateComment (truncateBody (approvalBody overall))"
  let ?sum = "\<lparr>totalFiles = length files, filesReviewed = length fileResults,
                totalComments = 0,
                criticalIssues = sum_list (map criticalCount fileResults),
                warnings = sum_list (map warningCount fileResults),
                suggestions = sum_list (map suggestionCount fileResults),
                summary = overall\<rparr>"
  from assms have post: "postReview rt config github overall [] fileResults sent
                       = postGeneralComment rt github (approvalBody overall) sent"
    by (simp add: postReview_def)
  obtain res sent' where pg: "postGeneralComment rt github (approvalBody overall) sent
                                = (res, sent')"
    by (cases "postGeneralComment rt github (approvalBody overall) sent")
  from assms post pg
  have run: "runReview rt config github llm sent
               = (case res of Inl e \<Rightarrow> (Inl e, sent') | Inr u \<Rightarrow> (Inr ?sum, sent'))"
    by (simp add: runReview_def Let_def split: sum.splits)
  obtain k where k: "snd (postGeneralComment rt github (approvalBody overall) sent)
                       = sent @ replicate k ?req" and kb: "1 \<le> k" "k \<le> 3"
    using postGeneralComment_requests by blast
  from run pg k have "snd (runReview rt config github llm sent) = sent @ replicate k ?req"
    by (cases res) simp_all
  with kb have one: "\<exists>k. 1 \<le> k \<and> k \<le> 3
            \<and> snd (runReview rt config github llm sent) = sent @ replicate k ?req"
    by blast
  from run have two: "\<forall>s. fst (runReview rt config github llm sent) = Inr s \<longrightarrow> s = ?sum"
    by (cases res) auto
  have three: "accept github sent ?req = Inr ()
                 \<longrightarrow> (\<exists>s. runReview rt config github llm sent = (Inr s, sent @ [?req]))"
  proof
    assume a: "accept github sent ?req = Inr ()"
    from withRetry_send_accepted [OF a, where rt = rt]
    have "postGeneralComment rt github (approvalBody overall) sent = (Inr (), sent @ [?req])"
      by (simp add: postGeneralComment_def Let_def)
    with pg have "res = Inr ()" and "sent' = sent @ [?req]" by simp_all
    with run show "\<exists>s. runReview rt config github llm sent = (Inr s, sent @ [?req])"
      by simp
  qed
  from one two three show ?thesis by blast
qed

text \<open>
  The same run with \<open>postAsReview\<close> on: \<open>runReview\<close> calls \<open>createReview\<close> with the
  empty list of comments, which returns at once, so the run sends nothing and returns
  its summary.
\<close>

lemma runReview_approval_as_review:
  assumes "getPRDetails github = Inr prDetails"
    and "getChangedFiles github (cfg_excludePatterns config) = Inr files"
    and "files \<noteq> []"
    and "reviewLoop rt config llm prDetails
           (if cfg_maxFiles config > 0 then take (nat (cfg_maxFiles config)) files else files)
           ([], [])
         = ([], fileResults)"
    and "generateSummary llm
           (map (\<lambda>r. (fr_filePath r, fr_summary r, issueCount r)) fileResults)
           (cfg_prompt config) = Inr overall"
    and "cfg_postAsReview config"
  shows "runReview rt config github llm sent
           = (Inr \<lparr>totalFiles = length files, filesReviewed = length fileResults,
                   totalComments = 0,
                   criticalIssues = sum_list (map criticalCount fileResults),
                   warnings = sum_list (map warningCount fileResults),
                   suggestions = sum_list (map suggestionCount fileResults),
                   summary = overall\<rparr>, sent)"
proof -
  from assms have "postReview rt config github overall [] fileResults sent = (Inr (), sent)"
    by (simp add: postReview_def createReview_def)
  with assms show ?thesis by (simp add: runReview_def Let_def)
qed

text \<open>
  C1, in the code: \<open>createReview\<close> sends nothing when the list of comments is empty,
  whatever the body and the event. So the run over one modified file with no issue and
  every write accepted, which is to deliver a review with the event \<open>APPROVE\<close> when
  \<open>postAsReview\<close> is on, returns its summary with zero comments and has sent nothing;
  with \<open>postAsReview\<close> off the same run sends the approval body as a general comment.
\<close>

theorem approval_review_not_sent:
  "createReview rt github [] body ev sent = (Inr (), sent)
   \<and> runReview asciiRuntime (reviewConfig True) acceptingClient quietLLM []
       = (Inr \<lparr>totalFiles = 1, filesReviewed = 1, totalComments = 0, criticalIssues = 0,
               warnings = 0, suggestions = 0, summary = utf16 ''All clear''\<rparr>, [])
   \<and> runReview asciiRuntime (reviewConfig False) acceptingClient quietLLM []
       = (Inr \<lparr>totalFiles = 1, filesReviewed = 1, totalComments = 0, criticalIssues = 0,
               warnings = 0, suggestions = 0, summary = utf16 ''All clear''\<rparr>,
          [IssuesCreateComment (approvalBody (utf16 ''All clear''))])"
proof (intro conjI)
  show "createReview rt github [] body ev sent = (Inr (), sent)"
    by (simp add: createReview_def)
next
  show "runReview asciiRuntime (reviewConfig True) acceptingClient quietLLM []
       = (Inr \<lparr>totalFiles = 1, filesReviewed = 1, totalComments = 0, criticalIssues = 0,
               warnings = 0, suggestions = 0, summary = utf16 ''All clear''\<rparr>, [])"
    by code_simp
next
  show "runReview asciiRuntime (reviewConfig False) acceptingClient quietLLM []
       = (Inr \<lparr>totalFiles = 1, filesReviewed = 1, totalComments = 0, criticalIssues = 0,
               warnings = 0, suggestions = 0, summary = utf16 ''All clear''\<rparr>,
          [IssuesCreateComment (approvalBody (utf16 ''All clear''))])"
    by code_simp
qed

end
